theory Spec2Isabelle
  imports Complex_Main
begin

section \<open>The animated hero gradient of \<open>src/script/Responsive.js\<close>\<close>

text \<open>
  This theory embeds \<open>setupRandomHeroBg\<close> (section 11 of \<open>Responsive.js\<close>) and the
  functions nested in it: \<open>parseColor\<close>, \<open>lerpColor\<close>, \<open>generateRandomGradient\<close>,
  \<open>gradientToString\<close> and \<open>animate\<close>.

  Conventions of the embedding.
  \<^item> A JavaScript Number is an exact real number (\<^typ>\<open>real\<close>); the rounding of
    IEEE doubles is not modelled. Where the source can produce \<open>NaN\<close> the type is
    \<open>jsnum\<close>, which adds that value. Infinities cannot arise (the only division is by
    the constant 6000).
  \<^item> \<open>undefined\<close> is \<open>None\<close>; a thrown \<open>TypeError\<close> is \<open>Inl TypeError\<close>.
  \<^item> \<open>Math.random()\<close> reads an explicit, infinite sequence of draws; \<open>Date.now()\<close> is an
    argument of the function that reads it.
  \<^item> The DOM is a store of style maps, one for each element; \<open>requestAnimationFrame\<close>
    counts the callbacks requested.
\<close>

subsection \<open>Numbers and their text\<close>

datatype js_error = TypeError

datatype jsnum = Num real | NaN

text \<open>Binary arithmetic on Numbers: \<open>NaN\<close> in either operand gives \<open>NaN\<close>.\<close>

fun num2 :: "(real \<Rightarrow> real \<Rightarrow> real) \<Rightarrow> jsnum \<Rightarrow> jsnum \<Rightarrow> jsnum" where
  "num2 f (Num x) (Num y) = Num (f x y)"
| "num2 f _ _ = NaN"

definition nadd :: "jsnum \<Rightarrow> jsnum \<Rightarrow> jsnum" where
  "nadd = num2 (+)"

definition nsub :: "jsnum \<Rightarrow> jsnum \<Rightarrow> jsnum" where
  "nsub = num2 (-)"

definition nmul :: "jsnum \<Rightarrow> jsnum \<Rightarrow> jsnum" where
  "nmul = num2 (*)"

text \<open>\<open>Math.round\<close>: the nearest integer, a tie going up (towards plus infinity).\<close>

fun mathRound :: "jsnum \<Rightarrow> jsnum" where
  "mathRound (Num x) = Num (of_int \<lfloor>x + 1 / 2\<rfloor>)"
| "mathRound NaN = NaN"

definition isDigit :: "char \<Rightarrow> bool" where
  "isDigit c = (c \<in> set ''0123456789'')"

definition digitValue :: "char \<Rightarrow> nat" where
  "digitValue c = of_char c - 48"

definition digitsValue :: "string \<Rightarrow> nat" where
  "digitsValue ds = foldl (\<lambda>acc c. 10 * acc + digitValue c) 0 ds"

definition digitChar :: "nat \<Rightarrow> char" where
  "digitChar d = ''0123456789'' ! (d mod 10)"

text \<open>The decimal digits of a natural number, as JavaScript prints an integer.\<close>

fun natToString :: "nat \<Rightarrow> string" where
  "natToString n = (if n < 10 then [digitChar n] else natToString (n div 10) @ [digitChar (n mod 10)])"

declare natToString.simps [simp del]

definition intToString :: "int \<Rightarrow> string" where
  "intToString i = (if i < 0 then CHR ''-'' # natToString (nat (- i)) else natToString (nat i))"

text \<open>
  The text of a Number inside a template literal, for the values \<open>lerpColor\<close> prints there:
  results of \<open>Math.round\<close>, which are integers or \<open>NaN\<close>. (JavaScript switches to
  exponent notation from \<open>1e21\<close> on; the model prints every integer in decimal.)
\<close>

fun roundedToString :: "jsnum \<Rightarrow> string" where
  "roundedToString (Num x) = intToString \<lfloor>x\<rfloor>"
| "roundedToString NaN = ''NaN''"

text \<open>
  \<open>Number.prototype.toFixed(2)\<close>: the sign of a negative number, then the integer \<open>n\<close>
  with \<open>n / 100\<close> nearest to the absolute value (the larger \<open>n\<close> at a tie), printed with
  two digits after the point. \<open>fixed2\<close> prints \<open>n\<close>.
\<close>

definition fixed2 :: "nat \<Rightarrow> string" where
  "fixed2 n = natToString (n div 100) @ ''.'' @ [digitChar (n mod 100 div 10), digitChar (n mod 10)]"

definition hundredths :: "real \<Rightarrow> nat" where
  "hundredths x = nat \<lfloor>x * 100 + 1 / 2\<rfloor>"

fun toFixed2 :: "jsnum \<Rightarrow> string" where
  "toFixed2 (Num x) = (if x < 0 then CHR ''-'' # fixed2 (hundredths (- x)) else fixed2 (hundredths x))"
| "toFixed2 NaN = ''NaN''"

subsection \<open>Parsing a colour\<close>

text \<open>
  \<open>colorStr.match(/\d+(\.\d+)?/g)\<close>: all matches, left to right, of one or more digits
  optionally followed by a point and one or more digits. JavaScript returns \<open>null\<close> when
  nothing matches; here that is the empty list.
\<close>

function regexMatch :: "string \<Rightarrow> string list" where
  "regexMatch [] = []"
| "regexMatch (c # cs) =
     (if isDigit c then
        (let ds = takeWhile isDigit (c # cs); rest = dropWhile isDigit (c # cs)
         in case rest of
              d # f # rest' \<Rightarrow>
                if d = CHR ''.'' \<and> isDigit f
                then (ds @ ''.'' @ takeWhile isDigit (f # rest')) # regexMatch (dropWhile isDigit (f # rest'))
                else ds # regexMatch rest
            | _ \<Rightarrow> ds # regexMatch rest)
      else regexMatch cs)"
  by pat_completeness auto

lemma dropWhile_shorter: "length (dropWhile P xs) < Suc (length xs)"
  by (simp add: length_dropWhile_le less_Suc_eq_le)

lemma dropWhile_tail_shorter:
  assumes "d # f # r = dropWhile P xs"
  shows "length (dropWhile Q r) < Suc (length xs)"
proof -
  have "length (dropWhile Q r) \<le> length r" by (rule length_dropWhile_le)
  also have "length r < length (dropWhile P xs)" using assms [symmetric] by simp
  also have "\<dots> \<le> length xs" by (rule length_dropWhile_le)
  finally show ?thesis by simp
qed

termination regexMatch
  by (relation "measure length") (auto simp: dropWhile_shorter dest: dropWhile_tail_shorter)

text \<open>Reading an array at an integer index: \<open>undefined\<close> outside the array.\<close>

definition at_index :: "'a list \<Rightarrow> int \<Rightarrow> 'a option" where
  "at_index xs i = (if 0 \<le> i \<and> i < int (length xs) then Some (xs ! nat i) else None)"

text \<open>
  \<open>parseInt\<close> and \<open>parseFloat\<close> on what \<open>parseColor\<close> passes them: a match of the regular
  expression (digits, possibly a point and digits) or \<open>undefined\<close>. \<open>parseInt\<close> reads the
  leading digits and stops at the point; both give \<open>NaN\<close> for \<open>undefined\<close>.
\<close>

fun parseInt :: "string option \<Rightarrow> jsnum" where
  "parseInt None = NaN"
| "parseInt (Some s) =
     (let ds = takeWhile isDigit s in if ds = [] then NaN else Num (of_nat (digitsValue ds)))"

fun parseFloat :: "string option \<Rightarrow> jsnum" where
  "parseFloat None = NaN"
| "parseFloat (Some s) =
     (let ds = takeWhile isDigit s; rest = dropWhile isDigit s
      in if ds = [] then NaN
         else case rest of
                d # fs \<Rightarrow>
                  if d = CHR ''.''
                  then (let fd = takeWhile isDigit fs
                        in Num (of_nat (digitsValue ds) + of_nat (digitsValue fd) / 10 ^ length fd))
                  else Num (of_nat (digitsValue ds))
              | [] \<Rightarrow> Num (of_nat (digitsValue ds)))"

record Color =
  r :: jsnum
  g :: jsnum
  b :: jsnum
  a :: jsnum

text \<open>
  \<open>parseColor\<close>. Calling \<open>match\<close> on \<open>undefined\<close> throws, and so does indexing the \<open>null\<close>
  that \<open>match\<close> returns when the string holds no digit.
\<close>

fun parseColor :: "string option \<Rightarrow> js_error + Color" where
  "parseColor None = Inl TypeError"
| "parseColor (Some colorStr) =
     (let m = regexMatch colorStr
      in if m = [] then Inl TypeError
         else Inr \<lparr>r = parseInt (at_index m 0),
                   g = parseInt (at_index m 1),
                   b = parseInt (at_index m 2),
                   a = parseFloat (at_index m 3)\<rparr>)"

subsection \<open>Interpolating two colours\<close>

text \<open>The expression \<open>x + (y - x) * t\<close> of the source, on Numbers.\<close>

definition lerp :: "jsnum \<Rightarrow> jsnum \<Rightarrow> real \<Rightarrow> jsnum" where
  "lerp x y t = nadd x (nmul (nsub y x) (Num t))"

text \<open>The template literal \<open>rgba(${r}, ${g}, ${b}, ${a})\<close>, from the four texts.\<close>

definition rgbaText :: "string \<Rightarrow> string \<Rightarrow> string \<Rightarrow> string \<Rightarrow> string" where
  "rgbaText rs gs bs as = ''rgba('' @ rs @ '', '' @ gs @ '', '' @ bs @ '', '' @ as @ '')''"

definition lerpColor :: "string option \<Rightarrow> string option \<Rightarrow> real \<Rightarrow> js_error + string" where
  "lerpColor color1 color2 t =
     (case parseColor color1 of
        Inl e \<Rightarrow> Inl e
      | Inr c1 \<Rightarrow>
          (case parseColor color2 of
             Inl e \<Rightarrow> Inl e
           | Inr c2 \<Rightarrow>
               (let rr = mathRound (lerp (r c1) (r c2) t);
                    gg = mathRound (lerp (g c1) (g c2) t);
                    bb = mathRound (lerp (b c1) (b c2) t);
                    aa = toFixed2 (lerp (a c1) (a c2) t)
                in Inr (rgbaText (roundedToString rr) (roundedToString gg) (roundedToString bb) aa))))"

text \<open>The palette of the source.\<close>

definition colors :: "string list" where
  "colors =
     [''rgba(255, 127, 180, 0.55)'',
      ''rgba(168, 85, 247, 0.55)'',
      ''rgba(96, 165, 250, 0.55)'',
      ''rgba(20, 184, 166, 0.55)'']"

subsection \<open>Random gradients\<close>

text \<open>
  \<open>Math.random()\<close>: the generator is the sequence of the draws still to come; a call
  returns the first and leaves the rest. The host promises draws in \<open>[0, 1)\<close>, which
  \<open>validDraws\<close> states.
\<close>

type_synonym rng = "nat \<Rightarrow> real"

definition mathRandom :: "rng \<Rightarrow> real \<times> rng" where
  "mathRandom gen = (gen 0, \<lambda>i. gen (Suc i))"

definition validDraws :: "rng \<Rightarrow> bool" where
  "validDraws gen = (\<forall>i. 0 \<le> gen i \<and> gen i < 1)"

record Gradient =
  color1 :: "string option"
  color2 :: "string option"
  color3 :: "string option"
  pos1X :: real
  pos1Y :: real
  pos2X :: real
  pos2Y :: real
  pos3X :: real
  pos3Y :: real

text \<open>\<open>colors[Math.floor(Math.random() * colors.length)]\<close>.\<close>

definition randomColor :: "rng \<Rightarrow> string option \<times> rng" where
  "randomColor gen =
     (let (u, gen') = mathRandom gen
      in (at_index colors \<lfloor>u * real (length colors)\<rfloor>, gen'))"

text \<open>\<open>Math.random() * 40 + base\<close>.\<close>

definition randomPos :: "real \<Rightarrow> rng \<Rightarrow> real \<times> rng" where
  "randomPos base gen = (let (u, gen') = mathRandom gen in (u * 40 + base, gen'))"

definition generateRandomGradient :: "rng \<Rightarrow> Gradient \<times> rng" where
  "generateRandomGradient gen0 =
     (let (c1, gen1) = randomColor gen0;
          (c2, gen2) = randomColor gen1;
          (c3, gen3) = randomColor gen2;
          (p1X, gen4) = randomPos 10 gen3;
          (p1Y, gen5) = randomPos 10 gen4;
          (p2X, gen6) = randomPos 60 gen5;
          (p2Y, gen7) = randomPos 20 gen6;
          (p3X, gen8) = randomPos 40 gen7;
          (p3Y, gen9) = randomPos 60 gen8
      in (\<lparr>color1 = c1, color2 = c2, color3 = c3,
           pos1X = p1X, pos1Y = p1Y, pos2X = p2X, pos2Y = p2Y, pos3X = p3X, pos3Y = p3Y\<rparr>,
          gen9))"

subsection \<open>The text of a gradient\<close>

text \<open>A colour inside a template literal: the string itself, or the word for \<open>undefined\<close>.\<close>

fun colorText :: "string option \<Rightarrow> string" where
  "colorText (Some s) = s"
| "colorText None = ''undefined''"

text \<open>
  One \<open>radial-gradient(...)\<close> layer. The text of a position, JavaScript's conversion of a
  Number to a string, is the parameter \<open>fmt\<close>: it is the host's shortest decimal that
  reads back as the same double, which has no counterpart on exact reals.
\<close>

definition layerText :: "(real \<Rightarrow> string) \<Rightarrow> real \<Rightarrow> real \<Rightarrow> string option \<Rightarrow> string \<Rightarrow> string" where
  "layerText fmt x y c stop =
     ''radial-gradient(circle at '' @ fmt x @ ''% '' @ fmt y @ ''%, '' @ colorText c
       @ '', transparent '' @ stop @ '')''"

text \<open>Between two layers the template has a comma, a line feed and five tabs.\<close>

definition layerSep :: string where
  "layerSep = CHR '','' # CHR 0x0A # replicate 5 (CHR 0x09)"

definition gradientToString :: "(real \<Rightarrow> string) \<Rightarrow> Gradient \<Rightarrow> string" where
  "gradientToString fmt grad =
     layerText fmt (pos1X grad) (pos1Y grad) (color1 grad) ''35%'' @ layerSep
     @ layerText fmt (pos2X grad) (pos2Y grad) (color2 grad) ''38%'' @ layerSep
     @ layerText fmt (pos3X grad) (pos3Y grad) (color3 grad) ''42%''"

subsection \<open>The page and the animation\<close>

text \<open>
  What \<open>setupRandomHeroBg\<close> reaches outside itself: the elements found by the two
  \<open>document.querySelector\<close> calls (\<open>None\<close> for \<open>null\<close>), the custom properties of every
  element's style, the random generator, and the number of frame callbacks requested.
\<close>

type_synonym element = nat

record Page =
  wrapper :: "element option"
  topbar :: "element option"
  styles :: "element \<Rightarrow> (string \<rightharpoonup> string)"
  random :: rng
  frameRequests :: nat

text \<open>The variables that \<open>animate\<close> closes over.\<close>

record Closure =
  currentGradient :: Gradient
  targetGradient :: Gradient
  animationProgress :: real
  lastTime :: int

definition animationDuration :: real where
  "animationDuration = 6000"

text \<open>\<open>el.style.setProperty(name, value)\<close> when \<open>el\<close> is not \<open>null\<close>.\<close>

definition setProperty :: "element option \<Rightarrow> string \<Rightarrow> string \<Rightarrow> Page \<Rightarrow> Page" where
  "setProperty el name v page =
     (case el of
        None \<Rightarrow> page
      | Some e \<Rightarrow> page\<lparr>styles := (styles page)(e := (styles page e)(name \<mapsto> v))\<rparr>)"

definition requestAnimationFrame :: "Page \<Rightarrow> Page" where
  "requestAnimationFrame page = page\<lparr>frameRequests := Suc (frameRequests page)\<rparr>"

text \<open>Both writes of a gradient: to the wrapper, then to the top bar.\<close>

definition publish :: "(real \<Rightarrow> string) \<Rightarrow> Gradient \<Rightarrow> Page \<Rightarrow> Page" where
  "publish fmt grad page =
     setProperty (topbar page) ''--topbar-bg'' (gradientToString fmt grad)
       (setProperty (wrapper page) ''--hero-bg'' (gradientToString fmt grad) page)"

text \<open>
  \<open>setupRandomHeroBg\<close>, called at time \<open>now\<close> (the value \<open>Date.now()\<close> returns). It gives
  back the page and, unless it left at the first test, the variables of the animation.
\<close>

definition setupRandomHeroBg :: "(real \<Rightarrow> string) \<Rightarrow> int \<Rightarrow> Page \<Rightarrow> Page \<times> Closure option" where
  "setupRandomHeroBg fmt now page =
     (if wrapper page = None \<and> topbar page = None then (page, None)
      else
        (let (cur, gen1) = generateRandomGradient (random page);
             (tgt, gen2) = generateRandomGradient gen1;
             page1 = page\<lparr>random := gen2\<rparr>;
             page2 = publish fmt cur page1
         in (requestAnimationFrame page2,
             Some \<lparr>currentGradient = cur, targetGradient = tgt,
                   animationProgress = 0, lastTime = now\<rparr>)))"

text \<open>
  The first part of \<open>animate\<close>: the progress moves on by \<open>elapsed / animationDuration\<close>, and
  from 1 on it loses 1, the target becomes the current gradient and a new target is drawn.
  The quotient and the sum are exact here; the code's doubles can differ from them in the
  last place, which a statement about the bounds 1 and 2 has to leave room for.
\<close>

definition advance :: "int \<Rightarrow> Page \<times> Closure \<Rightarrow> Page \<times> Closure" where
  "advance now pc =
     (let (page, c) = pc;
          elapsed = now - lastTime c;
          progress = animationProgress c + real_of_int elapsed / animationDuration
      in if progress \<ge> 1
         then (let (tgt, gen) = generateRandomGradient (random page)
               in (page\<lparr>random := gen\<rparr>,
                   c\<lparr>animationProgress := progress - 1,
                     currentGradient := targetGradient c,
                     targetGradient := tgt\<rparr>))
         else (page, c\<lparr>animationProgress := progress\<rparr>))"

text \<open>The second part: \<open>interpGrad\<close>. A \<open>TypeError\<close> of \<open>lerpColor\<close> ends the call.\<close>

definition interpolate :: "Closure \<Rightarrow> js_error + Gradient" where
  "interpolate c =
     (let t = animationProgress c; cur = currentGradient c; tgt = targetGradient c
      in case lerpColor (color1 cur) (color1 tgt) t of
           Inl e \<Rightarrow> Inl e
         | Inr k1 \<Rightarrow>
             (case lerpColor (color2 cur) (color2 tgt) t of
                Inl e \<Rightarrow> Inl e
              | Inr k2 \<Rightarrow>
                  (case lerpColor (color3 cur) (color3 tgt) t of
                     Inl e \<Rightarrow> Inl e
                   | Inr k3 \<Rightarrow>
                       Inr \<lparr>color1 = Some k1, color2 = Some k2, color3 = Some k3,
                            pos1X = pos1X cur + (pos1X tgt - pos1X cur) * t,
                            pos1Y = pos1Y cur + (pos1Y tgt - pos1Y cur) * t,
                            pos2X = pos2X cur + (pos2X tgt - pos2X cur) * t,
                            pos2Y = pos2Y cur + (pos2Y tgt - pos2Y cur) * t,
                            pos3X = pos3X cur + (pos3X tgt - pos3X cur) * t,
                            pos3Y = pos3Y cur + (pos3Y tgt - pos3Y cur) * t\<rparr>)))"

text \<open>
  \<open>animate\<close>, called at time \<open>now\<close>: advance, interpolate, write the gradient to the
  elements that exist, remember the time and request the next frame.
\<close>

definition animate :: "(real \<Rightarrow> string) \<Rightarrow> int \<Rightarrow> Page \<times> Closure \<Rightarrow> js_error + Page \<times> Closure" where
  "animate fmt now pc =
     (let (page, c) = advance now pc
      in case interpolate c of
           Inl e \<Rightarrow> Inl e
         | Inr interpGrad \<Rightarrow>
             Inr (requestAnimationFrame (publish fmt interpGrad page), c\<lparr>lastTime := now\<rparr>))"

subsection \<open>Well-formed values\<close>

text \<open>
  A valid colour, as the specification describes it: three integer channels from 0 to 255
  and an alpha from 0 to 1. None of them is \<open>NaN\<close>.
\<close>

fun channelOk :: "jsnum \<Rightarrow> bool" where
  "channelOk (Num x) = (of_int \<lfloor>x\<rfloor> = x \<and> 0 \<le> x \<and> x \<le> 255)"
| "channelOk NaN = False"

fun alphaOk :: "jsnum \<Rightarrow> bool" where
  "alphaOk (Num x) = (0 \<le> x \<and> x \<le> 1)"
| "alphaOk NaN = False"

definition validColor :: "Color \<Rightarrow> bool" where
  "validColor c = (channelOk (r c) \<and> channelOk (g c) \<and> channelOk (b c) \<and> alphaOk (a c))"

text \<open>The text \<open>lerpColor\<close> would print for a parsed colour left as it is.\<close>

definition colorText4 :: "Color \<Rightarrow> string" where
  "colorText4 c =
     rgbaText (roundedToString (r c)) (roundedToString (g c)) (roundedToString (b c)) (toFixed2 (a c))"

text \<open>A gradient whose three colours are entries of the palette.\<close>

definition paletteGradient :: "Gradient \<Rightarrow> bool" where
  "paletteGradient grad =
     (color1 grad \<in> set (map Some colors) \<and> color2 grad \<in> set (map Some colors)
      \<and> color3 grad \<in> set (map Some colors))"

text \<open>
  The state in which \<open>animate\<close> runs: both gradients carry colours of the palette, and
  the generator keeps the promise of \<open>Math.random\<close>. \<open>setupRandomHeroBg\<close> establishes
  it and \<open>animate\<close> keeps it (\<open>setup_wellFormed\<close>, \<open>animate_wellFormed\<close> below).
\<close>

definition wellFormed :: "Page \<times> Closure \<Rightarrow> bool" where
  "wellFormed pc =
     (paletteGradient (currentGradient (snd pc)) \<and> paletteGradient (targetGradient (snd pc))
      \<and> validDraws (random (fst pc)))"

text \<open>
  The colour half way between two colours, in the words of the specification: each
  channel is the rounded arithmetic midpoint of the two channels, the alpha the midpoint
  of the two alphas with two decimals, and the text is \<open>rgba(\<close>, the four values
  separated by a comma and a space, and \<open>)\<close>. It is written out character by
  character, apart from \<open>lerpColor\<close> and \<open>rgbaText\<close>, and compared with them.
\<close>

definition midpoint :: "jsnum \<Rightarrow> jsnum \<Rightarrow> jsnum" where
  "midpoint u v = nmul (nadd u v) (Num (1 / 2))"

definition midpointColor :: "string option \<Rightarrow> string option \<Rightarrow> string option" where
  "midpointColor s1 s2 =
     (case (parseColor s1, parseColor s2) of
        (Inr c1, Inr c2) \<Rightarrow>
          Some (''rgba('' @ roundedToString (mathRound (midpoint (r c1) (r c2)))
                @ '', '' @ roundedToString (mathRound (midpoint (g c1) (g c2)))
                @ '', '' @ roundedToString (mathRound (midpoint (b c1) (b c2)))
                @ '', '' @ toFixed2 (midpoint (a c1) (a c2)) @ '')'')
      | _ \<Rightarrow> None)"

subsection \<open>Sample values\<close>

text \<open>
  Concrete inputs on which the theorems are exercised: a generator whose every draw is
  one half, a printer of positions (the integer part in decimal), two gradients, a page
  with both elements, a page with none, and the variables of an animation at a given
  progress.
\<close>

definition drawsHalf :: rng where
  "drawsHalf = (\<lambda>i. 1 / 2)"

definition showFloor :: "real \<Rightarrow> string" where
  "showFloor x = intToString \<lfloor>x\<rfloor>"

definition gradientA :: Gradient where
  "gradientA =
     \<lparr>color1 = Some ''rgba(255, 127, 180, 0.55)'', color2 = Some ''rgba(168, 85, 247, 0.55)'',
      color3 = Some ''rgba(96, 165, 250, 0.55)'',
      pos1X = 20, pos1Y = 20, pos2X = 70, pos2Y = 30, pos3X = 50, pos3Y = 70\<rparr>"

definition gradientB :: Gradient where
  "gradientB =
     \<lparr>color1 = Some ''rgba(20, 184, 166, 0.55)'', color2 = Some ''rgba(255, 127, 180, 0.55)'',
      color3 = Some ''rgba(168, 85, 247, 0.55)'',
      pos1X = 40, pos1Y = 40, pos2X = 90, pos2Y = 50, pos3X = 70, pos3Y = 90\<rparr>"

definition pageBoth :: Page where
  "pageBoth = \<lparr>wrapper = Some 0, topbar = Some 1, styles = (\<lambda>e. Map.empty),
               random = drawsHalf, frameRequests = 1\<rparr>"

definition pageBare :: Page where
  "pageBare = \<lparr>wrapper = None, topbar = None, styles = (\<lambda>e. Map.empty),
               random = drawsHalf, frameRequests = 0\<rparr>"

definition closureAt :: "real \<Rightarrow> Closure" where
  "closureAt p = \<lparr>currentGradient = gradientA, targetGradient = gradientB,
                  animationProgress = p, lastTime = 1000\<rparr>"

section \<open>Properties\<close>

subsection \<open>Evaluating the palette\<close>

lemmas eval_text = intToString_def fixed2_def hundredths_def digitChar_def
  natToString.simps [of "numeral k" for k] natToString.simps [of 0] natToString.simps [of "Suc 0"]

lemmas eval_parse = isDigit_def at_index_def digitsValue_def digitValue_def

lemma parse_rose:
  "parseColor (Some ''rgba(255, 127, 180, 0.55)'')
     = Inr \<lparr>r = Num 255, g = Num 127, b = Num 180, a = Num (55 / 100)\<rparr>"
  by (simp add: eval_parse)

lemma parse_violet:
  "parseColor (Some ''rgba(168, 85, 247, 0.55)'')
     = Inr \<lparr>r = Num 168, g = Num 85, b = Num 247, a = Num (55 / 100)\<rparr>"
  by (simp add: eval_parse)

lemma parse_blue:
  "parseColor (Some ''rgba(96, 165, 250, 0.55)'')
     = Inr \<lparr>r = Num 96, g = Num 165, b = Num 250, a = Num (55 / 100)\<rparr>"
  by (simp add: eval_parse)

lemma parse_teal:
  "parseColor (Some ''rgba(20, 184, 166, 0.55)'')
     = Inr \<lparr>r = Num 20, g = Num 184, b = Num 166, a = Num (55 / 100)\<rparr>"
  by (simp add: eval_parse)

text \<open>
  Every entry of the palette parses to a valid colour, and printing that colour gives
  the entry back.
\<close>

lemma palette_parses:
  assumes "s \<in> set colors"
  shows "\<exists>c. parseColor (Some s) = Inr c \<and> validColor c \<and> colorText4 c = s"
proof -
  from assms consider "s = ''rgba(255, 127, 180, 0.55)''" | "s = ''rgba(168, 85, 247, 0.55)''"
    | "s = ''rgba(96, 165, 250, 0.55)''" | "s = ''rgba(20, 184, 166, 0.55)''"
    by (auto simp: colors_def)
  then show ?thesis
  proof cases
    case 1
    show ?thesis unfolding 1 parse_rose
      by (simp add: validColor_def colorText4_def rgbaText_def eval_text)
  next
    case 2
    show ?thesis unfolding 2 parse_violet
      by (simp add: validColor_def colorText4_def rgbaText_def eval_text)
  next
    case 3
    show ?thesis unfolding 3 parse_blue
      by (simp add: validColor_def colorText4_def rgbaText_def eval_text)
  next
    case 4
    show ?thesis unfolding 4 parse_teal
      by (simp add: validColor_def colorText4_def rgbaText_def eval_text)
  qed
qed

subsection \<open>Interpolation stays between its end points\<close>

lemma lerp_Num [simp]: "lerp (Num x) (Num y) t = Num (x + (y - x) * t)"
  by (simp add: lerp_def nadd_def nsub_def nmul_def)

lemma lerp_between:
  fixes x y t lo hi :: real
  assumes "lo \<le> x" "x \<le> hi" "lo \<le> y" "y \<le> hi" "0 \<le> t" "t \<le> 1"
  shows "lo \<le> x + (y - x) * t \<and> x + (y - x) * t \<le> hi"
proof -
  have eq: "x + (y - x) * t = (1 - t) * x + t * y" by (simp add: algebra_simps)
  have "(1 - t) * lo \<le> (1 - t) * x" "t * lo \<le> t * y"
    using assms by (simp_all add: mult_left_mono)
  then have "(1 - t) * lo + t * lo \<le> (1 - t) * x + t * y" by linarith
  moreover have "(1 - t) * lo + t * lo = lo" by (simp add: algebra_simps)
  moreover have "(1 - t) * x \<le> (1 - t) * hi" "t * y \<le> t * hi"
    using assms by (simp_all add: mult_left_mono)
  then have "(1 - t) * x + t * y \<le> (1 - t) * hi + t * hi" by linarith
  moreover have "(1 - t) * hi + t * hi = hi" by (simp add: algebra_simps)
  ultimately show ?thesis unfolding eq by linarith
qed

lemma channel_lerp_range:
  fixes x y t :: real
  assumes "0 \<le> x" "x \<le> 255" "0 \<le> y" "y \<le> 255" "0 \<le> t" "t \<le> 1"
  shows "0 \<le> \<lfloor>x + (y - x) * t + 1 / 2\<rfloor> \<and> \<lfloor>x + (y - x) * t + 1 / 2\<rfloor> \<le> 255"
proof -
  define v where "v = x + (y - x) * t"
  from lerp_between [OF assms] have "0 \<le> v" "v \<le> 255" by (simp_all add: v_def)
  then have "0 \<le> \<lfloor>v + 1 / 2\<rfloor> \<and> \<lfloor>v + 1 / 2\<rfloor> \<le> 255"
    by (simp add: floor_le_iff le_floor_iff)
  then show ?thesis by (simp add: v_def)
qed

lemma alpha_lerp_range:
  fixes x y t :: real
  assumes "0 \<le> x" "x \<le> 1" "0 \<le> y" "y \<le> 1" "0 \<le> t" "t \<le> 1"
  shows "0 \<le> x + (y - x) * t \<and> hundredths (x + (y - x) * t) \<le> 100"
proof -
  define v where "v = x + (y - x) * t"
  from lerp_between [OF assms] have v: "0 \<le> v" "v \<le> 1" by (simp_all add: v_def)
  then have "v * 100 + 1 / 2 < 101" by linarith
  then have "\<lfloor>v * 100 + 1 / 2\<rfloor> \<le> 100" by (simp add: floor_le_iff)
  then have "nat \<lfloor>v * 100 + 1 / 2\<rfloor> \<le> 100" by linarith
  then have "0 \<le> v \<and> hundredths v \<le> 100" using v unfolding hundredths_def by blast
  then show ?thesis by (simp add: v_def)
qed

lemma lerpColor_parsed:
  assumes "parseColor s1 = Inr c1" "parseColor s2 = Inr c2"
  shows "lerpColor s1 s2 t =
     Inr (rgbaText (roundedToString (mathRound (lerp (r c1) (r c2) t)))
                   (roundedToString (mathRound (lerp (g c1) (g c2) t)))
                   (roundedToString (mathRound (lerp (b c1) (b c2) t)))
                   (toFixed2 (lerp (a c1) (a c2) t)))"
  using assms by (simp add: lerpColor_def)

lemma channelOk_cases:
  assumes "channelOk v"
  obtains k where "v = Num (of_int k)" "0 \<le> k" "k \<le> 255"
proof (cases v)
  case (Num x)
  with assms obtain n where "x = of_int n" and "0 \<le> x" "x \<le> 255" by auto
  then have "v = Num (of_int n)" "0 \<le> n" "n \<le> 255"
    using Num by simp_all
  then show ?thesis by (rule that)
next
  case NaN
  with assms show ?thesis by simp
qed

lemma alphaOk_cases:
  assumes "alphaOk v"
  obtains x where "v = Num x" "0 \<le> x" "x \<le> 1"
  using assms by (cases v) simp_all

lemma channel_text_range:
  assumes "channelOk u" "channelOk v" "0 \<le> t" "t \<le> 1"
  shows "\<exists>k. roundedToString (mathRound (lerp u v t)) = intToString k \<and> 0 \<le> k \<and> k \<le> 255"
proof -
  from assms(1) obtain i where u: "u = Num (of_int i)" "0 \<le> i" "i \<le> 255" by (rule channelOk_cases)
  from assms(2) obtain j where v: "v = Num (of_int j)" "0 \<le> j" "j \<le> 255" by (rule channelOk_cases)
  define k where "k = \<lfloor>real_of_int i + (real_of_int j - real_of_int i) * t + 1 / 2\<rfloor>"
  have "0 \<le> k \<and> k \<le> 255"
    unfolding k_def using u v assms(3,4) by (intro channel_lerp_range) simp_all
  moreover have "roundedToString (mathRound (lerp u v t)) = intToString k"
    unfolding u v k_def by simp
  ultimately show ?thesis by blast
qed

lemma alpha_text_range:
  assumes "alphaOk u" "alphaOk v" "0 \<le> t" "t \<le> 1"
  shows "\<exists>n. toFixed2 (lerp u v t) = fixed2 n \<and> n \<le> 100"
proof -
  from assms(1) obtain x where u: "u = Num x" "0 \<le> x" "x \<le> 1" by (rule alphaOk_cases)
  from assms(2) obtain y where v: "v = Num y" "0 \<le> y" "y \<le> 1" by (rule alphaOk_cases)
  from alpha_lerp_range [OF u(2,3) v(2,3) assms(3,4)]
  show ?thesis unfolding u v by auto
qed

subsection \<open>The colour \<open>lerpColor\<close> returns\<close>

text \<open>
  Claim C4. For two valid colours (integer channels in [0,255], alpha in [0,1]) and every
  \<open>t\<close> in [0,1], \<open>lerpColor\<close> returns the text of a colour whose three channels are
  integers in [0,255] and whose alpha is a number of hundredths from 0 to 100, printed
  with two decimals.
\<close>

theorem lerpColor_output_range:
  assumes "parseColor (Some s1) = Inr c1" "parseColor (Some s2) = Inr c2"
    and "validColor c1" "validColor c2" and "0 \<le> t" "t \<le> 1"
  shows "\<exists>ri gi bi n.
     lerpColor (Some s1) (Some s2) t
       = Inr (rgbaText (intToString ri) (intToString gi) (intToString bi) (fixed2 n))
     \<and> 0 \<le> ri \<and> ri \<le> 255 \<and> 0 \<le> gi \<and> gi \<le> 255 \<and> 0 \<le> bi \<and> bi \<le> 255 \<and> n \<le> 100"
proof -
  from assms(3,4) have ok: "channelOk (r c1)" "channelOk (r c2)" "channelOk (g c1)" "channelOk (g c2)"
    "channelOk (b c1)" "channelOk (b c2)" "alphaOk (a c1)" "alphaOk (a c2)"
    by (simp_all add: validColor_def)
  from channel_text_range [OF ok(1,2) assms(5,6)] obtain ri
    where ri: "roundedToString (mathRound (lerp (r c1) (r c2) t)) = intToString ri" "0 \<le> ri" "ri \<le> 255"
    by blast
  from channel_text_range [OF ok(3,4) assms(5,6)] obtain gi
    where gi: "roundedToString (mathRound (lerp (g c1) (g c2) t)) = intToString gi" "0 \<le> gi" "gi \<le> 255"
    by blast
  from channel_text_range [OF ok(5,6) assms(5,6)] obtain bi
    where bi: "roundedToString (mathRound (lerp (b c1) (b c2) t)) = intToString bi" "0 \<le> bi" "bi \<le> 255"
    by blast
  from alpha_text_range [OF ok(7,8) assms(5,6)] obtain n
    where n: "toFixed2 (lerp (a c1) (a c2) t) = fixed2 n" "n \<le> 100"
    by blast
  have "lerpColor (Some s1) (Some s2) t
      = Inr (rgbaText (intToString ri) (intToString gi) (intToString bi) (fixed2 n))"
    unfolding lerpColor_parsed [OF assms(1,2)] ri(1) gi(1) bi(1) n(1) ..
  with ri gi bi n show ?thesis by blast
qed

theorem lerpColor_output_range_witness:
  "parseColor (Some ''rgba(255, 127, 180, 0.55)'')
     = Inr \<lparr>r = Num 255, g = Num 127, b = Num 180, a = Num (55 / 100)\<rparr>
   \<and> parseColor (Some ''rgba(20, 184, 166, 0.55)'')
     = Inr \<lparr>r = Num 20, g = Num 184, b = Num 166, a = Num (55 / 100)\<rparr>
   \<and> validColor \<lparr>r = Num 255, g = Num 127, b = Num 180, a = Num (55 / 100)\<rparr>
   \<and> validColor \<lparr>r = Num 20, g = Num 184, b = Num 166, a = Num (55 / 100)\<rparr>
   \<and> (0::real) \<le> 3 / 10 \<and> (3 / 10 :: real) \<le> 1
   \<and> (\<exists>ri gi bi n.
        lerpColor (Some ''rgba(255, 127, 180, 0.55)'') (Some ''rgba(20, 184, 166, 0.55)'') (3 / 10)
          = Inr (rgbaText (intToString ri) (intToString gi) (intToString bi) (fixed2 n))
        \<and> 0 \<le> ri \<and> ri \<le> 255 \<and> 0 \<le> gi \<and> gi \<le> 255 \<and> 0 \<le> bi \<and> bi \<le> 255 \<and> n \<le> 100)"
proof -
  have v1: "validColor \<lparr>r = Num 255, g = Num 127, b = Num 180, a = Num (55 / 100)\<rparr>"
    by (simp add: validColor_def)
  have v2: "validColor \<lparr>r = Num 20, g = Num 184, b = Num 166, a = Num (55 / 100)\<rparr>"
    by (simp add: validColor_def)
  have t: "(0::real) \<le> 3 / 10" "(3 / 10 :: real) \<le> 1" by simp_all
  from lerpColor_output_range [OF parse_rose parse_teal v1 v2 t] parse_rose parse_teal v1 v2 t
  show ?thesis by blast
qed

subsection \<open>The end points and the diagonal of \<open>lerpColor\<close>\<close>

lemma floor_int_half: "\<lfloor>real_of_int k + 1 / 2\<rfloor> = k"
  by linarith

lemma channel_text_fixed:
  assumes "channelOk u"
  shows "roundedToString (mathRound u) = roundedToString u"
proof -
  from assms obtain k where "u = Num (of_int k)" by (rule channelOk_cases)
  then show ?thesis by (simp add: floor_int_half)
qed

lemma channel_lerp_ends:
  assumes "channelOk u" "channelOk v"
  shows "lerp u v 0 = u" "lerp u v 1 = v" "lerp u u t = u"
proof -
  from assms(1) obtain i where u: "u = Num (of_int i)" by (rule channelOk_cases)
  from assms(2) obtain j where v: "v = Num (of_int j)" by (rule channelOk_cases)
  show "lerp u v 0 = u" "lerp u v 1 = v" "lerp u u t = u" unfolding u v by simp_all
qed

lemma alpha_lerp_ends:
  assumes "alphaOk u" "alphaOk v"
  shows "lerp u v 0 = u" "lerp u v 1 = v" "lerp u u t = u"
proof -
  from assms(1) obtain x where u: "u = Num x" by (rule alphaOk_cases)
  from assms(2) obtain y where v: "v = Num y" by (rule alphaOk_cases)
  show "lerp u v 0 = u" "lerp u v 1 = v" "lerp u u t = u" unfolding u v by simp_all
qed

lemma lerpColor_ends:
  assumes "parseColor s1 = Inr c1" "parseColor s2 = Inr c2" "validColor c1" "validColor c2"
  shows "lerpColor s1 s2 0 = Inr (colorText4 c1)" "lerpColor s1 s2 1 = Inr (colorText4 c2)"
proof -
  from assms(3,4) have ok: "channelOk (r c1)" "channelOk (r c2)" "channelOk (g c1)" "channelOk (g c2)"
    "channelOk (b c1)" "channelOk (b c2)" "alphaOk (a c1)" "alphaOk (a c2)"
    by (simp_all add: validColor_def)
  show "lerpColor s1 s2 0 = Inr (colorText4 c1)"
    unfolding lerpColor_parsed [OF assms(1,2)] colorText4_def
    by (simp add: channel_lerp_ends [OF ok(1,2)] channel_lerp_ends [OF ok(3,4)]
        channel_lerp_ends [OF ok(5,6)] alpha_lerp_ends [OF ok(7,8)] channel_text_fixed ok)
  show "lerpColor s1 s2 1 = Inr (colorText4 c2)"
    unfolding lerpColor_parsed [OF assms(1,2)] colorText4_def
    by (simp add: channel_lerp_ends [OF ok(1,2)] channel_lerp_ends [OF ok(3,4)]
        channel_lerp_ends [OF ok(5,6)] alpha_lerp_ends [OF ok(7,8)] channel_text_fixed ok)
qed

lemma lerpColor_same:
  assumes "parseColor s = Inr c" "validColor c"
  shows "lerpColor s s t = Inr (colorText4 c)"
proof -
  from assms(2) have ok: "channelOk (r c)" "channelOk (g c)" "channelOk (b c)" "alphaOk (a c)"
    by (simp_all add: validColor_def)
  show ?thesis
    unfolding lerpColor_parsed [OF assms(1,1)] colorText4_def
    by (simp add: channel_lerp_ends [OF ok(1,1)] channel_lerp_ends [OF ok(2,2)]
        channel_lerp_ends [OF ok(3,3)] alpha_lerp_ends [OF ok(4,4)] channel_text_fixed ok)
qed

text \<open>
  Claim C3. For every pair of colours of the palette, \<open>lerpColor\<close> at \<open>t = 0\<close> returns
  the first colour and at \<open>t = 1\<close> the second, as the very strings of the palette:
  the channels are integers already and the alpha has two decimals.
\<close>

theorem lerpColor_palette_ends:
  assumes "s1 \<in> set colors" "s2 \<in> set colors"
  shows "lerpColor (Some s1) (Some s2) 0 = Inr s1 \<and> lerpColor (Some s1) (Some s2) 1 = Inr s2"
proof -
  from palette_parses [OF assms(1)] obtain c1
    where c1: "parseColor (Some s1) = Inr c1" "validColor c1" "colorText4 c1 = s1" by blast
  from palette_parses [OF assms(2)] obtain c2
    where c2: "parseColor (Some s2) = Inr c2" "validColor c2" "colorText4 c2 = s2" by blast
  from lerpColor_ends [OF c1(1) c2(1) c1(2) c2(2)] c1(3) c2(3) show ?thesis by simp
qed

theorem lerpColor_palette_ends_witness:
  "''rgba(255, 127, 180, 0.55)'' \<in> set colors \<and> ''rgba(20, 184, 166, 0.55)'' \<in> set colors
   \<and> lerpColor (Some ''rgba(255, 127, 180, 0.55)'') (Some ''rgba(20, 184, 166, 0.55)'') 0
       = Inr ''rgba(255, 127, 180, 0.55)''
   \<and> lerpColor (Some ''rgba(255, 127, 180, 0.55)'') (Some ''rgba(20, 184, 166, 0.55)'') 1
       = Inr ''rgba(20, 184, 166, 0.55)''"
proof -
  have m: "''rgba(255, 127, 180, 0.55)'' \<in> set colors" "''rgba(20, 184, 166, 0.55)'' \<in> set colors"
    by (simp_all add: colors_def)
  from lerpColor_palette_ends [OF m] m show ?thesis by blast
qed

text \<open>
  Claim C10. Interpolating a valid colour with itself returns that colour at every \<open>t\<close>:
  its three channels unchanged and its alpha printed with two decimals. For a colour
  of the palette the result is the palette's own string.
\<close>

theorem lerpColor_same_color:
  assumes "parseColor (Some s) = Inr c" "validColor c"
  shows "lerpColor (Some s) (Some s) t = Inr (colorText4 c)
     \<and> (s \<in> set colors \<longrightarrow> lerpColor (Some s) (Some s) t = Inr s)"
proof -
  have same: "lerpColor (Some s) (Some s) t = Inr (colorText4 c)"
    using assms by (rule lerpColor_same)
  moreover have "lerpColor (Some s) (Some s) t = Inr s" if "s \<in> set colors"
  proof -
    from palette_parses [OF that] obtain c'
      where "parseColor (Some s) = Inr c'" "colorText4 c' = s" by blast
    with assms(1) same show ?thesis by simp
  qed
  ultimately show ?thesis by blast
qed

theorem lerpColor_same_color_witness:
  "parseColor (Some ''rgba(96, 165, 250, 0.55)'')
     = Inr \<lparr>r = Num 96, g = Num 165, b = Num 250, a = Num (55 / 100)\<rparr>
   \<and> validColor \<lparr>r = Num 96, g = Num 165, b = Num 250, a = Num (55 / 100)\<rparr>
   \<and> ''rgba(96, 165, 250, 0.55)'' \<in> set colors
   \<and> lerpColor (Some ''rgba(96, 165, 250, 0.55)'') (Some ''rgba(96, 165, 250, 0.55)'') (7 / 10)
       = Inr ''rgba(96, 165, 250, 0.55)''"
proof -
  have v: "validColor \<lparr>r = Num 96, g = Num 165, b = Num 250, a = Num (55 / 100)\<rparr>"
    by (simp add: validColor_def)
  have m: "''rgba(96, 165, 250, 0.55)'' \<in> set colors" by (simp add: colors_def)
  from lerpColor_same_color [OF parse_blue v, of "7 / 10"] parse_blue v m show ?thesis by blast
qed

subsection \<open>Drawing a gradient\<close>

lemma generateRandomGradient_eq:
  "generateRandomGradient gen =
     (\<lparr>color1 = at_index colors \<lfloor>gen 0 * real (length colors)\<rfloor>,
       color2 = at_index colors \<lfloor>gen 1 * real (length colors)\<rfloor>,
       color3 = at_index colors \<lfloor>gen 2 * real (length colors)\<rfloor>,
       pos1X = gen 3 * 40 + 10, pos1Y = gen 4 * 40 + 10,
       pos2X = gen 5 * 40 + 60, pos2Y = gen 6 * 40 + 20,
       pos3X = gen 7 * 40 + 40, pos3Y = gen 8 * 40 + 60\<rparr>,
      \<lambda>i. gen (i + 9))"
  by (simp add: generateRandomGradient_def randomColor_def randomPos_def mathRandom_def
      eval_nat_numeral)

lemma length_colors: "length colors = 4"
  by (simp add: colors_def)

lemma draw_in_palette:
  assumes "0 \<le> u" "u < 1"
  shows "at_index colors \<lfloor>u * real (length colors)\<rfloor> \<in> set (map Some colors)"
proof -
  have "0 \<le> \<lfloor>u * 4\<rfloor>" "\<lfloor>u * 4\<rfloor> < 4" using assms by (simp_all add: floor_less_iff)
  then have "nat \<lfloor>u * 4\<rfloor> < length colors" unfolding length_colors by linarith
  then have "colors ! nat \<lfloor>u * 4\<rfloor> \<in> set colors" by (rule nth_mem)
  moreover have "at_index colors \<lfloor>u * real (length colors)\<rfloor> = Some (colors ! nat \<lfloor>u * 4\<rfloor>)"
    using \<open>0 \<le> \<lfloor>u * 4\<rfloor>\<close> \<open>\<lfloor>u * 4\<rfloor> < 4\<close> by (simp add: at_index_def length_colors)
  ultimately show ?thesis by simp
qed

lemma generated_palette:
  assumes "validDraws gen"
  shows "paletteGradient (fst (generateRandomGradient gen))"
proof -
  have "at_index colors \<lfloor>gen i * real (length colors)\<rfloor> \<in> set (map Some colors)" for i
    using assms draw_in_palette unfolding validDraws_def by blast
  from this [of 0] this [of 1] this [of 2] show ?thesis
    unfolding generateRandomGradient_eq paletteGradient_def by simp
qed

lemma generated_draws:
  assumes "validDraws gen"
  shows "validDraws (snd (generateRandomGradient gen))"
  using assms by (simp add: generateRandomGradient_eq validDraws_def)

lemma lerpColor_palette_ok:
  assumes "o1 \<in> set (map Some colors)" "o2 \<in> set (map Some colors)"
  shows "\<exists>k. lerpColor o1 o2 t = Inr k"
proof -
  from assms obtain s1 s2 where s: "o1 = Some s1" "s1 \<in> set colors" "o2 = Some s2" "s2 \<in> set colors"
    by auto
  from palette_parses [OF s(2)] obtain c1 where c1: "parseColor (Some s1) = Inr c1" by blast
  from palette_parses [OF s(4)] obtain c2 where c2: "parseColor (Some s2) = Inr c2" by blast
  show ?thesis unfolding s(1,3) lerpColor_parsed [OF c1 c2] by blast
qed

lemma interpolate_palette:
  assumes "paletteGradient (currentGradient c)" "paletteGradient (targetGradient c)"
  shows "\<exists>grad. interpolate c = Inr grad"
proof -
  let ?t = "animationProgress c" and ?cur = "currentGradient c" and ?tgt = "targetGradient c"
  from assms obtain k1 where k1: "lerpColor (color1 ?cur) (color1 ?tgt) ?t = Inr k1"
    using lerpColor_palette_ok unfolding paletteGradient_def by blast
  from assms obtain k2 where k2: "lerpColor (color2 ?cur) (color2 ?tgt) ?t = Inr k2"
    using lerpColor_palette_ok unfolding paletteGradient_def by blast
  from assms obtain k3 where k3: "lerpColor (color3 ?cur) (color3 ?tgt) ?t = Inr k3"
    using lerpColor_palette_ok unfolding paletteGradient_def by blast
  show ?thesis by (simp add: interpolate_def Let_def k1 k2 k3)
qed

lemma advance_rotate:
  assumes "1 \<le> animationProgress c + real_of_int (now - lastTime c) / animationDuration"
  shows "advance now (page, c) =
     (page\<lparr>random := snd (generateRandomGradient (random page))\<rparr>,
      c\<lparr>animationProgress := animationProgress c + real_of_int (now - lastTime c) / animationDuration - 1,
        currentGradient := targetGradient c,
        targetGradient := fst (generateRandomGradient (random page))\<rparr>)"
  using assms by (simp add: advance_def split_def Let_def)

lemma advance_plain:
  assumes "animationProgress c + real_of_int (now - lastTime c) / animationDuration < 1"
  shows "advance now (page, c) =
     (page, c\<lparr>animationProgress := animationProgress c + real_of_int (now - lastTime c) / animationDuration\<rparr>)"
  using assms by (simp add: advance_def Let_def)

lemma advance_wellFormed:
  assumes "wellFormed (page, c)"
  shows "wellFormed (advance now (page, c))"
proof (cases "1 \<le> animationProgress c + real_of_int (now - lastTime c) / animationDuration")
  case True
  from assms show ?thesis unfolding advance_rotate [OF True]
    by (simp add: wellFormed_def generated_palette generated_draws)
next
  case False
  then have less: "animationProgress c + real_of_int (now - lastTime c) / animationDuration < 1"
    by simp
  from assms show ?thesis unfolding advance_plain [OF less]
    by (simp add: wellFormed_def)
qed

lemma animate_eq:
  assumes "interpolate (snd (advance now pc)) = Inr grad"
  shows "animate fmt now pc =
     Inr (requestAnimationFrame (publish fmt grad (fst (advance now pc))),
          (snd (advance now pc))\<lparr>lastTime := now\<rparr>)"
  using assms by (simp add: animate_def split_def Let_def)

text \<open>A call of \<open>animate\<close> in a well-formed state returns, and how.\<close>

lemma animate_returns:
  assumes "wellFormed (page, c)"
  obtains grad where "interpolate (snd (advance now (page, c))) = Inr grad"
    and "animate fmt now (page, c) =
       Inr (requestAnimationFrame (publish fmt grad (fst (advance now (page, c)))),
            (snd (advance now (page, c)))\<lparr>lastTime := now\<rparr>)"
proof -
  from advance_wellFormed [OF assms] have "wellFormed (advance now (page, c))" .
  then obtain grad where grad: "interpolate (snd (advance now (page, c))) = Inr grad"
    using interpolate_palette unfolding wellFormed_def by blast
  from grad animate_eq [OF grad] show ?thesis by (rule that)
qed

lemma publish_random [simp]: "random (publish fmt grad page) = random page"
  by (simp add: publish_def setProperty_def split: option.splits)

lemma requestAnimationFrame_random [simp]: "random (requestAnimationFrame page) = random page"
  by (simp add: requestAnimationFrame_def)

lemma animate_wellFormed:
  assumes "wellFormed (page, c)" "animate fmt now (page, c) = Inr pc'"
  shows "wellFormed pc'"
proof -
  from assms(1) obtain grad where
    "animate fmt now (page, c) =
       Inr (requestAnimationFrame (publish fmt grad (fst (advance now (page, c)))),
            (snd (advance now (page, c)))\<lparr>lastTime := now\<rparr>)"
    by (rule animate_returns)
  with assms(2) have pc': "pc' = (requestAnimationFrame (publish fmt grad (fst (advance now (page, c)))),
            (snd (advance now (page, c)))\<lparr>lastTime := now\<rparr>)" by simp
  from advance_wellFormed [OF assms(1), of now] show ?thesis
    unfolding pc' by (simp add: wellFormed_def)
qed

lemma setup_wellFormed:
  assumes "validDraws (random page)" "setupRandomHeroBg fmt now page = (page', Some c)"
  shows "wellFormed (page', c)"
proof -
  from assms(2) have ne: "\<not> (wrapper page = None \<and> topbar page = None)"
    by (auto simp: setupRandomHeroBg_def split: if_splits)
  let ?g1 = "generateRandomGradient (random page)"
  let ?g2 = "generateRandomGradient (snd ?g1)"
  from assms(2) ne have "page' = requestAnimationFrame (publish fmt (fst ?g1) (page\<lparr>random := snd ?g2\<rparr>))"
    and "c = \<lparr>currentGradient = fst ?g1, targetGradient = fst ?g2, animationProgress = 0, lastTime = now\<rparr>"
    by (simp_all add: setupRandomHeroBg_def split_def Let_def)
  then show ?thesis using assms(1)
    by (simp add: wellFormed_def generated_palette generated_draws)
qed

subsection \<open>One step of the animation\<close>

lemma validDraws_half: "validDraws drawsHalf"
  by (simp add: validDraws_def drawsHalf_def)

lemma palette_examples: "paletteGradient gradientA" "paletteGradient gradientB"
  by (simp_all add: paletteGradient_def gradientA_def gradientB_def colors_def)

lemma wellFormed_example: "wellFormed (pageBoth, closureAt p)"
  by (simp add: wellFormed_def closureAt_def pageBoth_def palette_examples validDraws_half)

lemma animate_rotates:
  assumes "paletteGradient (targetGradient c)" "validDraws (random page)"
    and "1 \<le> animationProgress c + real_of_int (now - lastTime c) / animationDuration"
  shows "\<exists>page' c'. animate fmt now (page, c) = Inr (page', c')
     \<and> currentGradient c' = targetGradient c
     \<and> targetGradient c' = fst (generateRandomGradient (random page))
     \<and> random page' = snd (generateRandomGradient (random page))
     \<and> animationProgress c'
         = animationProgress c + real_of_int (now - lastTime c) / animationDuration - 1"
proof -
  let ?c = "snd (advance now (page, c))" and ?p = "fst (advance now (page, c))"
  have "paletteGradient (currentGradient ?c)" "paletteGradient (targetGradient ?c)"
    unfolding advance_rotate [OF assms(3)] using assms(1,2) by (simp_all add: generated_palette)
  from interpolate_palette [OF this] obtain grad where "interpolate ?c = Inr grad" by blast
  from animate_eq [OF this] have
    "animate fmt now (page, c) = Inr (requestAnimationFrame (publish fmt grad ?p), ?c\<lparr>lastTime := now\<rparr>)" .
  moreover have "currentGradient (?c\<lparr>lastTime := now\<rparr>) = targetGradient c"
    "targetGradient (?c\<lparr>lastTime := now\<rparr>) = fst (generateRandomGradient (random page))"
    "random (requestAnimationFrame (publish fmt grad ?p)) = snd (generateRandomGradient (random page))"
    "animationProgress (?c\<lparr>lastTime := now\<rparr>)
       = animationProgress c + real_of_int (now - lastTime c) / animationDuration - 1"
    unfolding advance_rotate [OF assms(3)] by simp_all
  ultimately show ?thesis by blast
qed

lemma animate_keeps:
  assumes "wellFormed (page, c)"
    and "animationProgress c + real_of_int (now - lastTime c) / animationDuration < 1"
  shows "\<exists>page' c' grad. animate fmt now (page, c) = Inr (page', c')
     \<and> interpolate c' = Inr grad
     \<and> page' = requestAnimationFrame (publish fmt grad page)
     \<and> c' = c\<lparr>animationProgress := animationProgress c + real_of_int (now - lastTime c) / animationDuration,
              lastTime := now\<rparr>"
proof -
  from assms(1) obtain grad where grad: "interpolate (snd (advance now (page, c))) = Inr grad"
    and run: "animate fmt now (page, c) =
       Inr (requestAnimationFrame (publish fmt grad (fst (advance now (page, c)))),
            (snd (advance now (page, c)))\<lparr>lastTime := now\<rparr>)"
    by (rule animate_returns)
  have "interpolate ((snd (advance now (page, c)))\<lparr>lastTime := now\<rparr>) = Inr grad"
    using grad by (simp add: interpolate_def)
  with run show ?thesis unfolding advance_plain [OF assms(2)] by simp
qed

text \<open>
  Claim C2. In every step whose raw progress reaches 1, \<open>animate\<close> returns; afterwards
  the current gradient is the target of before, the new target is the gradient that one
  call of \<open>generateRandomGradient\<close> draws from the generator, the generator has moved
  on by that one call, and the progress has lost exactly 1: one rotation, however large
  the elapsed time.
\<close>

theorem rotation_step:
  assumes "paletteGradient (targetGradient c)" "validDraws (random page)"
    and "1 \<le> animationProgress c + real_of_int (now - lastTime c) / animationDuration"
  shows "\<exists>page' c'. animate fmt now (page, c) = Inr (page', c')
     \<and> currentGradient c' = targetGradient c
     \<and> targetGradient c' = fst (generateRandomGradient (random page))
     \<and> random page' = snd (generateRandomGradient (random page))
     \<and> animationProgress c'
         = animationProgress c + real_of_int (now - lastTime c) / animationDuration - 1"
  using assms by (rule animate_rotates)

theorem rotation_step_witness:
  "paletteGradient (targetGradient (closureAt (1 / 2))) \<and> validDraws (random pageBoth)
   \<and> 1 \<le> animationProgress (closureAt (1 / 2))
          + real_of_int (13000 - lastTime (closureAt (1 / 2))) / animationDuration
   \<and> (\<exists>page' c'. animate showFloor 13000 (pageBoth, closureAt (1 / 2)) = Inr (page', c')
     \<and> currentGradient c' = targetGradient (closureAt (1 / 2))
     \<and> targetGradient c' = fst (generateRandomGradient (random pageBoth))
     \<and> random page' = snd (generateRandomGradient (random pageBoth))
     \<and> animationProgress c'
         = animationProgress (closureAt (1 / 2))
           + real_of_int (13000 - lastTime (closureAt (1 / 2))) / animationDuration - 1)"
proof -
  have h1: "paletteGradient (targetGradient (closureAt (1 / 2)))"
    by (simp add: closureAt_def palette_examples)
  have h2: "validDraws (random pageBoth)" by (simp add: pageBoth_def validDraws_half)
  have h3: "1 \<le> animationProgress (closureAt (1 / 2))
          + real_of_int (13000 - lastTime (closureAt (1 / 2))) / animationDuration"
    by (simp add: closureAt_def animationDuration_def)
  from rotation_step [OF h1 h2 h3, of showFloor] h1 h2 h3 show ?thesis by blast
qed

text \<open>
  Claim C1 says that the progress after any step lies in [0,1). It does not: from
  progress one half, a frame 12000 ms after the last one (two periods) brings the raw
  progress to 5/2, and the single subtraction leaves 3/2.
\<close>

theorem progress_not_wrapped_counterexample:
  "0 \<le> animationProgress (closureAt (1 / 2)) \<and> animationProgress (closureAt (1 / 2)) < 1
   \<and> 0 \<le> 13000 - lastTime (closureAt (1 / 2))
   \<and> \<not> isl (animate showFloor 13000 (pageBoth, closureAt (1 / 2)))
   \<and> animationProgress (snd (projr (animate showFloor 13000 (pageBoth, closureAt (1 / 2))))) = 3 / 2
   \<and> \<not> animationProgress (snd (projr (animate showFloor 13000 (pageBoth, closureAt (1 / 2))))) < 1"
proof -
  have h1: "paletteGradient (targetGradient (closureAt (1 / 2)))"
    by (simp add: closureAt_def palette_examples)
  have h2: "validDraws (random pageBoth)" by (simp add: pageBoth_def validDraws_half)
  have h3: "1 \<le> animationProgress (closureAt (1 / 2))
          + real_of_int (13000 - lastTime (closureAt (1 / 2))) / animationDuration"
    by (simp add: closureAt_def animationDuration_def)
  from animate_rotates [OF h1 h2 h3, of showFloor] obtain page' c'
    where run: "animate showFloor 13000 (pageBoth, closureAt (1 / 2)) = Inr (page', c')"
      and p: "animationProgress c' = animationProgress (closureAt (1 / 2))
           + real_of_int (13000 - lastTime (closureAt (1 / 2))) / animationDuration - 1"
    by blast
  have "animationProgress c' = 3 / 2"
    unfolding p by (simp add: closureAt_def animationDuration_def)
  then show ?thesis unfolding run by (simp add: closureAt_def)
qed

text \<open>
  Claim C1, amended. From a progress in [0,1) and a non-negative elapsed time that keeps
  the raw progress at least one millisecond of progress below 2, that is
  \<open>progress + (elapsed + 1) / 6000 \<le> 2\<close>, \<open>animate\<close> returns with a progress in
  [0,1): the raw progress itself, or the raw progress less 1. Every elapsed time
  shorter than one period qualifies, the time stamps being whole milliseconds.

  The margin is there for the doubles of the code. Their sum can round up to 2 when the
  exact sum is within \<open>2^-52\<close> of it: from progress \<open>1 - 2^-53\<close> and 6000 ms the code
  computes 2 and leaves 1. A sum of at most \<open>2 - 1/6000\<close> is computed as a double below
  2, and for a double in [1,2) the subtraction of 1 is exact, so the statement holds of
  the computed progress as well.
\<close>

theorem progress_in_unit_interval:
  assumes "wellFormed (page, c)"
    and "0 \<le> animationProgress c" "animationProgress c < 1" "0 \<le> now - lastTime c"
    and "animationProgress c + real_of_int (now - lastTime c + 1) / animationDuration \<le> 2"
  shows "\<exists>page' c'. animate fmt now (page, c) = Inr (page', c')
     \<and> 0 \<le> animationProgress c' \<and> animationProgress c' < 1
     \<and> (animationProgress c' = animationProgress c + real_of_int (now - lastTime c) / animationDuration
        \<or> animationProgress c'
            = animationProgress c + real_of_int (now - lastTime c) / animationDuration - 1)"
proof -
  have "real_of_int (now - lastTime c + 1) / animationDuration
      = real_of_int (now - lastTime c) / animationDuration + 1 / 6000"
    by (simp add: animationDuration_def add_divide_distrib)
  with assms(5)
  have below: "animationProgress c + real_of_int (now - lastTime c) / animationDuration < 2"
    by linarith
  show ?thesis
  proof (cases "1 \<le> animationProgress c + real_of_int (now - lastTime c) / animationDuration")
    case True
    from assms(1) have "paletteGradient (targetGradient c)" "validDraws (random page)"
      by (simp_all add: wellFormed_def)
    from animate_rotates [OF this True, of fmt] below True show ?thesis by force
  next
    case False
    then have less: "animationProgress c + real_of_int (now - lastTime c) / animationDuration < 1"
      by simp
    have "0 \<le> real_of_int (now - lastTime c) / animationDuration"
      using assms(4) by (simp add: animationDuration_def)
    then have "0 \<le> animationProgress c + real_of_int (now - lastTime c) / animationDuration"
      using assms(2) by linarith
    with animate_keeps [OF assms(1) less, of fmt] less show ?thesis by force
  qed
qed

theorem progress_in_unit_interval_witness:
  "wellFormed (pageBoth, closureAt (9 / 10))
   \<and> 0 \<le> animationProgress (closureAt (9 / 10)) \<and> animationProgress (closureAt (9 / 10)) < 1
   \<and> 0 \<le> 3400 - lastTime (closureAt (9 / 10))
   \<and> animationProgress (closureAt (9 / 10))
        + real_of_int (3400 - lastTime (closureAt (9 / 10)) + 1) / animationDuration \<le> 2
   \<and> (\<exists>page' c'. animate showFloor 3400 (pageBoth, closureAt (9 / 10)) = Inr (page', c')
        \<and> 0 \<le> animationProgress c' \<and> animationProgress c' < 1
        \<and> animationProgress c' = 3 / 10)"
proof -
  have h: "0 \<le> animationProgress (closureAt (9 / 10))" "animationProgress (closureAt (9 / 10)) < 1"
    "0 \<le> 3400 - lastTime (closureAt (9 / 10))"
    "animationProgress (closureAt (9 / 10))
        + real_of_int (3400 - lastTime (closureAt (9 / 10)) + 1) / animationDuration \<le> 2"
    by (simp_all add: closureAt_def animationDuration_def)
  have v: "animationProgress (closureAt (9 / 10))
        + real_of_int (3400 - lastTime (closureAt (9 / 10))) / animationDuration = 13 / 10"
    by (simp add: closureAt_def animationDuration_def)
  from progress_in_unit_interval [OF wellFormed_example h, of showFloor] obtain page' c'
    where run: "animate showFloor 3400 (pageBoth, closureAt (9 / 10)) = Inr (page', c')"
      and range: "0 \<le> animationProgress c'" "animationProgress c' < 1"
      and val: "animationProgress c' = 13 / 10 \<or> animationProgress c' = 13 / 10 - 1"
    unfolding v by blast
  from val range(2) have "animationProgress c' = 3 / 10" by auto
  with run range wellFormed_example h show ?thesis by blast
qed

text \<open>
  Claim C6. From progress 0.9, a step that raises the raw progress to 1.3 returns with
  progress 0.3; the current gradient is the target of before and the new target is the
  one gradient drawn in the step.
\<close>

theorem scenario_wrap:
  assumes "paletteGradient (targetGradient c)" "validDraws (random page)"
    and "animationProgress c = 9 / 10"
    and "animationProgress c + real_of_int (now - lastTime c) / animationDuration = 13 / 10"
  shows "\<exists>page' c'. animate fmt now (page, c) = Inr (page', c')
     \<and> animationProgress c' = 3 / 10
     \<and> currentGradient c' = targetGradient c
     \<and> targetGradient c' = fst (generateRandomGradient (random page))
     \<and> random page' = snd (generateRandomGradient (random page))"
proof -
  have "1 \<le> animationProgress c + real_of_int (now - lastTime c) / animationDuration"
    unfolding assms(4) by simp
  from animate_rotates [OF assms(1,2) this, of fmt] show ?thesis unfolding assms(4) by force
qed

theorem scenario_wrap_witness:
  "paletteGradient (targetGradient (closureAt (9 / 10))) \<and> validDraws (random pageBoth)
   \<and> animationProgress (closureAt (9 / 10)) = 9 / 10
   \<and> animationProgress (closureAt (9 / 10))
        + real_of_int (3400 - lastTime (closureAt (9 / 10))) / animationDuration = 13 / 10
   \<and> (\<exists>page' c'. animate showFloor 3400 (pageBoth, closureAt (9 / 10)) = Inr (page', c')
     \<and> animationProgress c' = 3 / 10
     \<and> currentGradient c' = targetGradient (closureAt (9 / 10))
     \<and> targetGradient c' = fst (generateRandomGradient (random pageBoth))
     \<and> random page' = snd (generateRandomGradient (random pageBoth)))"
proof -
  have h1: "paletteGradient (targetGradient (closureAt (9 / 10)))"
    by (simp add: closureAt_def palette_examples)
  have h2: "validDraws (random pageBoth)" by (simp add: pageBoth_def validDraws_half)
  have h3: "animationProgress (closureAt (9 / 10)) = 9 / 10" by (simp add: closureAt_def)
  have h4: "animationProgress (closureAt (9 / 10))
        + real_of_int (3400 - lastTime (closureAt (9 / 10))) / animationDuration = 13 / 10"
    by (simp add: closureAt_def animationDuration_def)
  from scenario_wrap [OF h1 h2 h3 h4, of showFloor] h1 h2 h3 h4 show ?thesis by blast
qed

subsection \<open>What a step writes\<close>

lemma advance_surfaces [simp]:
  "wrapper (fst (advance now (page, c))) = wrapper page"
  "topbar (fst (advance now (page, c))) = topbar page"
  by (simp_all add: advance_def split_def Let_def)

lemma publish_styles:
  assumes "wrapper page = Some e1" "topbar page = Some e2"
  shows "styles (publish fmt grad page) e1 ''--hero-bg'' = Some (gradientToString fmt grad)"
    and "styles (publish fmt grad page) e2 ''--topbar-bg'' = Some (gradientToString fmt grad)"
  using assms by (simp_all add: publish_def setProperty_def)

lemma requestAnimationFrame_styles [simp]: "styles (requestAnimationFrame page) = styles page"
  by (simp add: requestAnimationFrame_def)

lemma interpolate_lastTime [simp]: "interpolate (c\<lparr>lastTime := n\<rparr>) = interpolate c"
  by (simp add: interpolate_def)

subsection \<open>Half way\<close>

lemma half_way: "x + (y - x) * (1 / 2) = (x + y) / 2" for x y :: real
  by (simp add: field_simps)

lemma lerp_half: "lerp u v (1 / 2) = midpoint u v"
proof (cases u)
  case u: (Num x)
  show ?thesis
  proof (cases v)
    case (Num y)
    have "x + (y - x) * (1 / 2) = (x + y) * (1 / 2)" by (simp add: field_simps)
    then show ?thesis unfolding u Num lerp_Num by (simp add: midpoint_def nadd_def nmul_def)
  next
    case NaN
    then show ?thesis by (simp add: u lerp_def midpoint_def nadd_def nsub_def nmul_def)
  qed
next
  case NaN
  then show ?thesis by (simp add: lerp_def midpoint_def nadd_def nsub_def nmul_def)
qed

lemma lerpColor_half:
  assumes "lerpColor s1 s2 (1 / 2) = Inr k"
  shows "midpointColor s1 s2 = Some k"
  using assms
  by (auto simp: lerpColor_def midpointColor_def rgbaText_def lerp_half Let_def split: sum.splits)

lemma interpolate_fields:
  assumes "interpolate c = Inr grad"
  shows "lerpColor (color1 (currentGradient c)) (color1 (targetGradient c)) (animationProgress c)
           = Inr (colorText (color1 grad)) \<and> color1 grad \<noteq> None"
    and "lerpColor (color2 (currentGradient c)) (color2 (targetGradient c)) (animationProgress c)
           = Inr (colorText (color2 grad)) \<and> color2 grad \<noteq> None"
    and "lerpColor (color3 (currentGradient c)) (color3 (targetGradient c)) (animationProgress c)
           = Inr (colorText (color3 grad)) \<and> color3 grad \<noteq> None"
    and "pos1X grad = pos1X (currentGradient c)
           + (pos1X (targetGradient c) - pos1X (currentGradient c)) * animationProgress c"
    and "pos1Y grad = pos1Y (currentGradient c)
           + (pos1Y (targetGradient c) - pos1Y (currentGradient c)) * animationProgress c"
    and "pos2X grad = pos2X (currentGradient c)
           + (pos2X (targetGradient c) - pos2X (currentGradient c)) * animationProgress c"
    and "pos2Y grad = pos2Y (currentGradient c)
           + (pos2Y (targetGradient c) - pos2Y (currentGradient c)) * animationProgress c"
    and "pos3X grad = pos3X (currentGradient c)
           + (pos3X (targetGradient c) - pos3X (currentGradient c)) * animationProgress c"
    and "pos3Y grad = pos3Y (currentGradient c)
           + (pos3Y (targetGradient c) - pos3Y (currentGradient c)) * animationProgress c"
  using assms by (auto simp: interpolate_def Let_def split: sum.splits)

lemma color_some: "x \<noteq> None \<Longrightarrow> Some (colorText x) = x"
  by (cases x) simp_all

text \<open>
  Claim C7. The duration is 6000 ms. From progress 0, a step 3000 ms after the last one
  returns with progress one half, both gradients and the generator untouched (no
  rotation), and publishes a gradient whose text is, character for character, three
  \<open>radial-gradient(circle at X% Y%, COLOUR, transparent N%)\<close> layers separated by a
  comma, a line feed and five tabs: \<open>X\<close> and \<open>Y\<close> the midpoints of the two positions,
  \<open>COLOUR\<close> the colour whose channels are the rounded midpoints, \<open>N\<close> 35, 38 and 42.
\<close>

theorem scenario_half:
  assumes "wellFormed (page, c)" "animationProgress c = 0" "now - lastTime c = 3000"
  shows "\<exists>page' c' grad k1 k2 k3. animate fmt now (page, c) = Inr (page', c')
     \<and> animationProgress c' = 1 / 2
     \<and> currentGradient c' = currentGradient c \<and> targetGradient c' = targetGradient c
     \<and> random page' = random page
     \<and> page' = requestAnimationFrame (publish fmt grad page)
     \<and> midpointColor (color1 (currentGradient c)) (color1 (targetGradient c)) = Some k1
     \<and> midpointColor (color2 (currentGradient c)) (color2 (targetGradient c)) = Some k2
     \<and> midpointColor (color3 (currentGradient c)) (color3 (targetGradient c)) = Some k3
     \<and> gradientToString fmt grad =
         ''radial-gradient(circle at ''
           @ fmt ((pos1X (currentGradient c) + pos1X (targetGradient c)) / 2) @ ''% ''
           @ fmt ((pos1Y (currentGradient c) + pos1Y (targetGradient c)) / 2) @ ''%, ''
           @ k1 @ '', transparent 35%),''
           @ [CHR 0x0A, CHR 0x09, CHR 0x09, CHR 0x09, CHR 0x09, CHR 0x09]
           @ ''radial-gradient(circle at ''
           @ fmt ((pos2X (currentGradient c) + pos2X (targetGradient c)) / 2) @ ''% ''
           @ fmt ((pos2Y (currentGradient c) + pos2Y (targetGradient c)) / 2) @ ''%, ''
           @ k2 @ '', transparent 38%),''
           @ [CHR 0x0A, CHR 0x09, CHR 0x09, CHR 0x09, CHR 0x09, CHR 0x09]
           @ ''radial-gradient(circle at ''
           @ fmt ((pos3X (currentGradient c) + pos3X (targetGradient c)) / 2) @ ''% ''
           @ fmt ((pos3Y (currentGradient c) + pos3Y (targetGradient c)) / 2) @ ''%, ''
           @ k3 @ '', transparent 42%)''"
proof -
  have raw: "animationProgress c + real_of_int (now - lastTime c) / animationDuration = 1 / 2"
    unfolding assms(2,3) by (simp add: animationDuration_def)
  have "animationProgress c + real_of_int (now - lastTime c) / animationDuration < 1"
    unfolding raw by simp
  from animate_keeps [OF assms(1) this, of fmt] obtain page' c' grad
    where run: "animate fmt now (page, c) = Inr (page', c')"
      and grad: "interpolate c' = Inr grad"
      and page': "page' = requestAnimationFrame (publish fmt grad page)"
      and c': "c' = c\<lparr>animationProgress := 1 / 2, lastTime := now\<rparr>"
    unfolding raw by blast
  have st: "animationProgress c' = 1 / 2" "currentGradient c' = currentGradient c"
    "targetGradient c' = targetGradient c"
    by (simp_all add: c')
  note f = interpolate_fields [OF grad, unfolded st half_way]
  from f(1) obtain k1 where k1: "color1 grad = Some k1" by blast
  from f(2) obtain k2 where k2: "color2 grad = Some k2" by blast
  from f(3) obtain k3 where k3: "color3 grad = Some k3" by blast
  have m1: "midpointColor (color1 (currentGradient c)) (color1 (targetGradient c)) = Some k1"
    using lerpColor_half f(1) k1 by fastforce
  have m2: "midpointColor (color2 (currentGradient c)) (color2 (targetGradient c)) = Some k2"
    using lerpColor_half f(2) k2 by fastforce
  have m3: "midpointColor (color3 (currentGradient c)) (color3 (targetGradient c)) = Some k3"
    using lerpColor_half f(3) k3 by fastforce
  have rendered: "gradientToString fmt grad =
         ''radial-gradient(circle at ''
           @ fmt ((pos1X (currentGradient c) + pos1X (targetGradient c)) / 2) @ ''% ''
           @ fmt ((pos1Y (currentGradient c) + pos1Y (targetGradient c)) / 2) @ ''%, ''
           @ k1 @ '', transparent 35%),''
           @ [CHR 0x0A, CHR 0x09, CHR 0x09, CHR 0x09, CHR 0x09, CHR 0x09]
           @ ''radial-gradient(circle at ''
           @ fmt ((pos2X (currentGradient c) + pos2X (targetGradient c)) / 2) @ ''% ''
           @ fmt ((pos2Y (currentGradient c) + pos2Y (targetGradient c)) / 2) @ ''%, ''
           @ k2 @ '', transparent 38%),''
           @ [CHR 0x0A, CHR 0x09, CHR 0x09, CHR 0x09, CHR 0x09, CHR 0x09]
           @ ''radial-gradient(circle at ''
           @ fmt ((pos3X (currentGradient c) + pos3X (targetGradient c)) / 2) @ ''% ''
           @ fmt ((pos3Y (currentGradient c) + pos3Y (targetGradient c)) / 2) @ ''%, ''
           @ k3 @ '', transparent 42%)''"
    unfolding gradientToString_def layerText_def layerSep_def k1 k2 k3 f(4-9)
    by (simp add: eval_nat_numeral)
  have "random page' = random page" by (simp add: page')
  with run st page' m1 m2 m3 rendered show ?thesis by blast
qed

lemma midpoint_stop:
  assumes "parseColor s1 = Inr \<lparr>r = Num x1, g = Num x2, b = Num x3, a = Num x4\<rparr>"
    and "parseColor s2 = Inr \<lparr>r = Num y1, g = Num y2, b = Num y3, a = Num y4\<rparr>"
  shows "midpointColor s1 s2 =
      Some (''rgba('' @ roundedToString (mathRound (midpoint (Num x1) (Num y1)))
            @ '', '' @ roundedToString (mathRound (midpoint (Num x2) (Num y2)))
            @ '', '' @ roundedToString (mathRound (midpoint (Num x3) (Num y3)))
            @ '', '' @ toFixed2 (midpoint (Num x4) (Num y4)) @ '')'')"
  unfolding midpointColor_def assms by (simp only: prod.case sum.case Color.simps)

lemma midpoint_examples:
  "midpointColor (color1 gradientA) (color1 gradientB) = Some ''rgba(138, 156, 173, 0.55)''"
  "midpointColor (color2 gradientA) (color2 gradientB) = Some ''rgba(212, 106, 214, 0.55)''"
  "midpointColor (color3 gradientA) (color3 gradientB) = Some ''rgba(132, 125, 249, 0.55)''"
proof -
  have ch: "roundedToString (mathRound (midpoint (Num 255) (Num 20))) = ''138''"
    "roundedToString (mathRound (midpoint (Num 127) (Num 184))) = ''156''"
    "roundedToString (mathRound (midpoint (Num 180) (Num 166))) = ''173''"
    "roundedToString (mathRound (midpoint (Num 168) (Num 255))) = ''212''"
    "roundedToString (mathRound (midpoint (Num 85) (Num 127))) = ''106''"
    "roundedToString (mathRound (midpoint (Num 247) (Num 180))) = ''214''"
    "roundedToString (mathRound (midpoint (Num 96) (Num 168))) = ''132''"
    "roundedToString (mathRound (midpoint (Num 165) (Num 85))) = ''125''"
    "roundedToString (mathRound (midpoint (Num 250) (Num 247))) = ''249''"
    "toFixed2 (midpoint (Num (55 / 100)) (Num (55 / 100))) = ''0.55''"
    by (simp_all add: midpoint_def nadd_def nmul_def eval_text)
  have c: "color1 gradientA = Some ''rgba(255, 127, 180, 0.55)''"
    "color2 gradientA = Some ''rgba(168, 85, 247, 0.55)''"
    "color3 gradientA = Some ''rgba(96, 165, 250, 0.55)''"
    "color1 gradientB = Some ''rgba(20, 184, 166, 0.55)''"
    "color2 gradientB = Some ''rgba(255, 127, 180, 0.55)''"
    "color3 gradientB = Some ''rgba(168, 85, 247, 0.55)''"
    by (simp_all only: gradientA_def gradientB_def Gradient.simps)
  show "midpointColor (color1 gradientA) (color1 gradientB) = Some ''rgba(138, 156, 173, 0.55)''"
    unfolding c midpoint_stop [OF parse_rose parse_teal] ch by simp
  show "midpointColor (color2 gradientA) (color2 gradientB) = Some ''rgba(212, 106, 214, 0.55)''"
    unfolding c midpoint_stop [OF parse_violet parse_rose] ch by simp
  show "midpointColor (color3 gradientA) (color3 gradientB) = Some ''rgba(132, 125, 249, 0.55)''"
    unfolding c midpoint_stop [OF parse_blue parse_violet] ch by simp
qed

theorem scenario_half_witness:
  "wellFormed (pageBoth, closureAt 0) \<and> animationProgress (closureAt 0) = 0
   \<and> 4000 - lastTime (closureAt 0) = 3000
   \<and> (\<exists>page' c' grad. animate showFloor 4000 (pageBoth, closureAt 0) = Inr (page', c')
        \<and> animationProgress c' = 1 / 2
        \<and> currentGradient c' = gradientA \<and> targetGradient c' = gradientB
        \<and> random page' = random pageBoth
        \<and> gradientToString showFloor grad =
            ''radial-gradient(circle at 30% 30%, rgba(138, 156, 173, 0.55), transparent 35%),''
            @ [CHR 0x0A, CHR 0x09, CHR 0x09, CHR 0x09, CHR 0x09, CHR 0x09]
            @ ''radial-gradient(circle at 80% 40%, rgba(212, 106, 214, 0.55), transparent 38%),''
            @ [CHR 0x0A, CHR 0x09, CHR 0x09, CHR 0x09, CHR 0x09, CHR 0x09]
            @ ''radial-gradient(circle at 60% 80%, rgba(132, 125, 249, 0.55), transparent 42%)''
        \<and> styles page' 0 ''--hero-bg'' = Some (gradientToString showFloor grad)
        \<and> styles page' 1 ''--topbar-bg'' = Some (gradientToString showFloor grad))"
proof -
  have h: "animationProgress (closureAt 0) = 0" "4000 - lastTime (closureAt 0) = 3000"
    by (simp_all add: closureAt_def)
  have cur: "currentGradient (closureAt 0) = gradientA" and tgt: "targetGradient (closureAt 0) = gradientB"
    by (simp_all add: closureAt_def)
  have pos: "(pos1X gradientA + pos1X gradientB) / 2 = 30" "(pos1Y gradientA + pos1Y gradientB) / 2 = 30"
    "(pos2X gradientA + pos2X gradientB) / 2 = 80" "(pos2Y gradientA + pos2Y gradientB) / 2 = 40"
    "(pos3X gradientA + pos3X gradientB) / 2 = 60" "(pos3Y gradientA + pos3Y gradientB) / 2 = 80"
    by (simp_all add: gradientA_def gradientB_def)
  have digits: "showFloor 30 = ''30''" "showFloor 40 = ''40''" "showFloor 60 = ''60''"
    "showFloor 80 = ''80''"
    by (simp_all add: showFloor_def eval_text)
  have el: "wrapper pageBoth = Some 0" "topbar pageBoth = Some 1" by (simp_all add: pageBoth_def)
  from scenario_half [OF wellFormed_example h, where fmt = showFloor] obtain page' c' grad k1 k2 k3
    where run: "animate showFloor 4000 (pageBoth, closureAt 0) = Inr (page', c')"
      and st: "animationProgress c' = 1 / 2" "currentGradient c' = gradientA"
        "targetGradient c' = gradientB" "random page' = random pageBoth"
      and page': "page' = requestAnimationFrame (publish showFloor grad pageBoth)"
      and k: "midpointColor (color1 gradientA) (color1 gradientB) = Some k1"
        "midpointColor (color2 gradientA) (color2 gradientB) = Some k2"
        "midpointColor (color3 gradientA) (color3 gradientB) = Some k3"
      and rendered: "gradientToString showFloor grad =
           ''radial-gradient(circle at '' @ showFloor 30 @ ''% '' @ showFloor 30 @ ''%, ''
           @ k1 @ '', transparent 35%),''
           @ [CHR 0x0A, CHR 0x09, CHR 0x09, CHR 0x09, CHR 0x09, CHR 0x09]
           @ ''radial-gradient(circle at '' @ showFloor 80 @ ''% '' @ showFloor 40 @ ''%, ''
           @ k2 @ '', transparent 38%),''
           @ [CHR 0x0A, CHR 0x09, CHR 0x09, CHR 0x09, CHR 0x09, CHR 0x09]
           @ ''radial-gradient(circle at '' @ showFloor 60 @ ''% '' @ showFloor 80 @ ''%, ''
           @ k3 @ '', transparent 42%)''"
    unfolding cur tgt pos by blast
  from k have ks: "k1 = ''rgba(138, 156, 173, 0.55)''" "k2 = ''rgba(212, 106, 214, 0.55)''"
    "k3 = ''rgba(132, 125, 249, 0.55)''"
    unfolding midpoint_examples by simp_all
  have lit: "gradientToString showFloor grad =
            ''radial-gradient(circle at 30% 30%, rgba(138, 156, 173, 0.55), transparent 35%),''
            @ [CHR 0x0A, CHR 0x09, CHR 0x09, CHR 0x09, CHR 0x09, CHR 0x09]
            @ ''radial-gradient(circle at 80% 40%, rgba(212, 106, 214, 0.55), transparent 38%),''
            @ [CHR 0x0A, CHR 0x09, CHR 0x09, CHR 0x09, CHR 0x09, CHR 0x09]
            @ ''radial-gradient(circle at 60% 80%, rgba(132, 125, 249, 0.55), transparent 42%)''"
    unfolding rendered ks digits by simp
  have written: "styles page' 0 ''--hero-bg'' = Some (gradientToString showFloor grad)"
    "styles page' 1 ''--topbar-bg'' = Some (gradientToString showFloor grad)"
    unfolding page' using publish_styles [OF el, of showFloor grad] by simp_all
  from run st lit written wellFormed_example h show ?thesis by blast
qed

subsection \<open>Writing to the page\<close>

text \<open>
  Claim C9. When both elements exist, a step writes one and the same text, that of the
  interpolated gradient, to \<open>--hero-bg\<close> of the wrapper and to \<open>--topbar-bg\<close> of the top
  bar (also when the two selectors find the same element).
\<close>

theorem surfaces_in_sync:
  assumes "wellFormed (page, c)" "wrapper page = Some e1" "topbar page = Some e2"
  shows "\<exists>page' c' grad. animate fmt now (page, c) = Inr (page', c')
     \<and> interpolate c' = Inr grad
     \<and> styles page' e1 ''--hero-bg'' = Some (gradientToString fmt grad)
     \<and> styles page' e2 ''--topbar-bg'' = Some (gradientToString fmt grad)"
proof -
  from assms(1) obtain grad where grad: "interpolate (snd (advance now (page, c))) = Inr grad"
    and run: "animate fmt now (page, c) =
       Inr (requestAnimationFrame (publish fmt grad (fst (advance now (page, c)))),
            (snd (advance now (page, c)))\<lparr>lastTime := now\<rparr>)"
    by (rule animate_returns)
  have "wrapper (fst (advance now (page, c))) = Some e1" "topbar (fst (advance now (page, c))) = Some e2"
    using assms(2,3) by simp_all
  note w = publish_styles [OF this, of fmt grad]
  from run grad w show ?thesis by simp
qed

theorem surfaces_in_sync_witness:
  "wellFormed (pageBoth, closureAt (1 / 2)) \<and> wrapper pageBoth = Some 0 \<and> topbar pageBoth = Some 1
   \<and> (\<exists>page' c' grad. animate showFloor 2500 (pageBoth, closureAt (1 / 2)) = Inr (page', c')
     \<and> interpolate c' = Inr grad
     \<and> styles page' 0 ''--hero-bg'' = Some (gradientToString showFloor grad)
     \<and> styles page' 1 ''--topbar-bg'' = Some (gradientToString showFloor grad))"
proof -
  have h: "wrapper pageBoth = Some 0" "topbar pageBoth = Some 1" by (simp_all add: pageBoth_def)
  from surfaces_in_sync [OF wellFormed_example h, where fmt = showFloor and now = 2500] wellFormed_example h
  show ?thesis by blast
qed

text \<open>
  Claim C8. With neither element on the page, \<open>setupRandomHeroBg\<close> returns the page as
  it was (no style written, no frame requested, no number drawn) and no animation
  variables: nothing will ever call \<open>animate\<close>.
\<close>

theorem setup_without_surfaces:
  assumes "wrapper page = None" "topbar page = None"
  shows "setupRandomHeroBg fmt now page = (page, None)"
  using assms by (simp add: setupRandomHeroBg_def)

theorem setup_without_surfaces_witness:
  "wrapper pageBare = None \<and> topbar pageBare = None
   \<and> setupRandomHeroBg showFloor 1000 pageBare = (pageBare, None)"
proof -
  have h: "wrapper pageBare = None" "topbar pageBare = None" by (simp_all add: pageBare_def)
  from setup_without_surfaces [OF h, where fmt = showFloor and now = 1000] h show ?thesis by blast
qed

subsection \<open>The shape of a random gradient\<close>

text \<open>
  Claim C5. \<open>generateRandomGradient\<close> returns three stops. Each colour is one of the
  four entries of the palette; the first stop lies in [10,50] x [10,50], the second in
  [60,100] x [20,60], the third in [40,80] x [60,100]. The upper ends are closed so that
  the statement also covers a double that rounds up to the end point.
\<close>

theorem generated_gradient_shape:
  assumes "validDraws gen" "generateRandomGradient gen = (grad, gen')"
  shows "length colors = 4
     \<and> color1 grad \<in> Some ` set colors \<and> color2 grad \<in> Some ` set colors
     \<and> color3 grad \<in> Some ` set colors
     \<and> 10 \<le> pos1X grad \<and> pos1X grad \<le> 50 \<and> 10 \<le> pos1Y grad \<and> pos1Y grad \<le> 50
     \<and> 60 \<le> pos2X grad \<and> pos2X grad \<le> 100 \<and> 20 \<le> pos2Y grad \<and> pos2Y grad \<le> 60
     \<and> 40 \<le> pos3X grad \<and> pos3X grad \<le> 80 \<and> 60 \<le> pos3Y grad \<and> pos3Y grad \<le> 100"
proof -
  from assms(2) have grad: "grad = fst (generateRandomGradient gen)" by simp
  from generated_palette [OF assms(1)] have
    "color1 grad \<in> Some ` set colors" "color2 grad \<in> Some ` set colors" "color3 grad \<in> Some ` set colors"
    unfolding grad paletteGradient_def by simp_all
  moreover have "0 \<le> gen i \<and> gen i \<le> 1" for i
    using assms(1) unfolding validDraws_def by (simp add: less_imp_le)
  from this [of 3] this [of 4] this [of 5] this [of 6] this [of 7] this [of 8]
  have "10 \<le> pos1X grad \<and> pos1X grad \<le> 50" "10 \<le> pos1Y grad \<and> pos1Y grad \<le> 50"
    "60 \<le> pos2X grad \<and> pos2X grad \<le> 100" "20 \<le> pos2Y grad \<and> pos2Y grad \<le> 60"
    "40 \<le> pos3X grad \<and> pos3X grad \<le> 80" "60 \<le> pos3Y grad \<and> pos3Y grad \<le> 100"
    unfolding grad generateRandomGradient_eq by simp_all
  ultimately show ?thesis using length_colors by blast
qed

theorem generated_gradient_shape_witness:
  "validDraws drawsHalf
   \<and> generateRandomGradient drawsHalf
       = (\<lparr>color1 = Some ''rgba(96, 165, 250, 0.55)'', color2 = Some ''rgba(96, 165, 250, 0.55)'',
           color3 = Some ''rgba(96, 165, 250, 0.55)'',
           pos1X = 30, pos1Y = 30, pos2X = 80, pos2Y = 40, pos3X = 60, pos3Y = 80\<rparr>, drawsHalf)
   \<and> length colors = 4
   \<and> Some ''rgba(96, 165, 250, 0.55)'' \<in> Some ` set colors
   \<and> (10::real) \<le> 30 \<and> (30::real) \<le> 50 \<and> (60::real) \<le> 80 \<and> (80::real) \<le> 100
   \<and> (20::real) \<le> 40 \<and> (40::real) \<le> 60 \<and> (40::real) \<le> 60 \<and> (60::real) \<le> 80"
proof -
  have run: "generateRandomGradient drawsHalf
       = (\<lparr>color1 = Some ''rgba(96, 165, 250, 0.55)'', color2 = Some ''rgba(96, 165, 250, 0.55)'',
           color3 = Some ''rgba(96, 165, 250, 0.55)'',
           pos1X = 30, pos1Y = 30, pos2X = 80, pos2Y = 40, pos3X = 60, pos3Y = 80\<rparr>, drawsHalf)"
    unfolding generateRandomGradient_eq by (simp add: drawsHalf_def at_index_def colors_def)
  from generated_gradient_shape [OF validDraws_half run] validDraws_half run
  show ?thesis by simp
qed

end
